theory Spec2Isabelle
  imports Main "HOL-Library.Sublist"
begin

section \<open>Go errors\<close>

text \<open>
  The error values the handlers and the storage layer compare against:
  \<^item> \<open>redis_Nil\<close> is go-redis' \<^verbatim>\<open>redis.Nil\<close> (key absent);
  \<^item> \<open>ErrURLNotFound\<close>, \<open>ErrURLExists\<close> are the sentinels of package \<^verbatim>\<open>storage\<close>;
  \<^item> \<open>sql_ErrNoRows\<close> is \<^verbatim>\<open>sql.ErrNoRows\<close>;
  \<^item> \<open>pq_Error code\<close> is a \<^verbatim>\<open>*pq.Error\<close> with that SQLSTATE code;
  \<^item> \<open>other_error msg\<close> is any other error (a connection fault, a timeout);
  \<^item> \<open>Errorf prefix e\<close> is \<^verbatim>\<open>fmt.Errorf(prefix + ": %w", e)\<close>: it wraps \<open>e\<close>.
\<close>

datatype error =
    redis_Nil
  | ErrURLNotFound
  | ErrURLExists
  | sql_ErrNoRows
  | pq_Error string
  | other_error string
  | Errorf string error

text \<open>\<^verbatim>\<open>errors.Is(err, target)\<close>: walks the chain of wrapped errors.\<close>

fun errors_Is :: "error \<Rightarrow> error \<Rightarrow> bool" where
  "errors_Is (Errorf p e) target = (if Errorf p e = target then True else errors_Is e target)"
| "errors_Is e target = (e = target)"

section \<open>Collaborators of the handlers\<close>

text \<open>
  A Go result \<^verbatim>\<open>(string, error)\<close> is a sum: \<open>Inr v\<close> is \<open>(v, nil)\<close>, \<open>Inl e\<close> is a
  non-nil error (the handlers never read the value next to one). A bare
  \<^verbatim>\<open>error\<close> result is an \<open>error option\<close>. Every collaborator acts on a world
  \<open>'w\<close> (the database and the cache server) and returns the world it leaves.
\<close>

type_synonym 'w URLGetter = "'w \<Rightarrow> string \<Rightarrow> (error + string) \<times> 'w"

type_synonym 'w URLSaver = "'w \<Rightarrow> string \<Rightarrow> string \<Rightarrow> (error + int) \<times> 'w"

record 'w URLCache =
  URLCache_Get :: "'w \<Rightarrow> string \<Rightarrow> (error + string) \<times> 'w"
  URLCache_Set :: "'w \<Rightarrow> string \<Rightarrow> string \<Rightarrow> int \<Rightarrow> error option \<times> 'w"

text \<open>\<^verbatim>\<open>time.Duration\<close> counts nanoseconds.\<close>

definition Second :: int where
  "Second = 1000000000"

definition Minute :: int where
  "Minute = 60 * Second"

definition StatusFound :: nat where
  "StatusFound = 302"

text \<open>
  What a handler run did before it wrote its response, in order: the calls to its
  collaborators with their results, and its log lines (message and attributes).
\<close>

datatype event =
    ev_cache_Get string "error + string"
  | ev_cache_Set string string int "error option"
  | ev_GetURL string "error + string"
  | ev_SaveURL string string "error + int"
  | log_Info string "(string \<times> string) list"
  | log_Error string error

section \<open>The redirect handler\<close>

text \<open>
  The request as the handler reads it: \<^verbatim>\<open>chi.URLParam(r, "alias")\<close> and
  \<^verbatim>\<open>r.URL.Path\<close>.
\<close>

record Request =
  URLParam_alias :: string
  URL_Path :: string

text \<open>
  The three ways the handler answers. \<open>render_JSON\<close> is \<^verbatim>\<open>render.JSON(w, r, v)\<close>; the
  handler never calls \<^verbatim>\<open>render.Status\<close>, so the body goes out with the default
  status 200. \<open>resp_Error msg\<close> is the value of \<^verbatim>\<open>resp.Error(msg)\<close>.
\<close>

datatype resp_Response = resp_Error string

datatype http_response =
    render_JSON resp_Response
  | http_NotFound
  | http_Redirect string nat

fun status_code :: "http_response \<Rightarrow> nat" where
  "status_code (render_JSON v) = 200"
| "status_code http_NotFound = 404"
| "status_code (http_Redirect u code) = code"

text \<open>
  The static-file guard: the last four bytes of a path longer than four bytes are
  compared with the five literals.
\<close>

definition static_ext :: "string \<Rightarrow> bool" where
  "static_ext path =
     (if length path > 4 then
        (let ext = drop (length path - 4) path in
         ext = ''.css'' \<or> ext = ''.js'' \<or> ext = ''.png'' \<or> ext = ''.jpg'' \<or> ext = ''.ico'')
      else False)"

definition New ::
  "'w URLGetter \<Rightarrow> 'w URLCache \<Rightarrow> Request \<Rightarrow> 'w \<Rightarrow> (http_response \<times> event list) \<times> 'w" where
  "New urlGetter urlCache r w =
     (let alias = URLParam_alias r in
      if alias = [] then
        ((render_JSON (resp_Error ''invalid request''), [log_Info ''alias is empty'' []]), w)
      else if static_ext (URL_Path r) then
        ((http_NotFound, []), w)
      else
        (case URLCache_Get urlCache w alias of
           (Inr resURL, w1) \<Rightarrow>
             ((http_Redirect resURL StatusFound,
               [ev_cache_Get alias (Inr resURL),
                log_Info ''got url from cache'' [(''url'', resURL)]]), w1)
         | (Inl err, w1) \<Rightarrow>
             (let t1 = ev_cache_Get alias (Inl err) #
                       (if err \<noteq> redis_Nil
                        then [log_Error ''failed to get url from cache'' err] else [])
              in
              case urlGetter w1 alias of
                (Inl err2, w2) \<Rightarrow>
                  if errors_Is err2 ErrURLNotFound then
                    ((render_JSON (resp_Error ''not found''),
                      t1 @ [ev_GetURL alias (Inl err2),
                            log_Info ''url not found'' [(''alias'', alias)]]), w2)
                  else
                    ((render_JSON (resp_Error ''internal error''),
                      t1 @ [ev_GetURL alias (Inl err2),
                            log_Error ''failed to get url'' err2]), w2)
              | (Inr resURL, w2) \<Rightarrow>
                  (case URLCache_Set urlCache w2 alias resURL (5 * Minute) of
                     (serr, w3) \<Rightarrow>
                       ((http_Redirect resURL StatusFound,
                         t1 @ [ev_GetURL alias (Inr resURL),
                               log_Info ''got url from storage'' [(''url'', resURL)],
                               ev_cache_Set alias resURL (5 * Minute) serr]
                            @ (case serr of
                                 Some e \<Rightarrow> [log_Error ''failed to set url to cache'' e]
                               | None \<Rightarrow> [])), w3)))))"

text \<open>The parts of a handler run.\<close>

definition response_of :: "('r \<times> event list) \<times> 'w \<Rightarrow> 'r" where
  "response_of run = fst (fst run)"

definition trace_of :: "('r \<times> event list) \<times> 'w \<Rightarrow> event list" where
  "trace_of run = snd (fst run)"

definition world_of :: "('r \<times> event list) \<times> 'w \<Rightarrow> 'w" where
  "world_of run = snd run"

section \<open>The paths of the redirect handler\<close>

lemma New_empty_alias:
  assumes "URLParam_alias r = []"
  shows "New g c r w =
    ((render_JSON (resp_Error ''invalid request''), [log_Info ''alias is empty'' []]), w)"
  using assms by (simp add: New_def Let_def)

lemma New_static:
  assumes "URLParam_alias r \<noteq> []" and "static_ext (URL_Path r)"
  shows "New g c r w = ((http_NotFound, []), w)"
  using assms by (simp add: New_def Let_def)

lemma New_hit:
  assumes "URLParam_alias r \<noteq> []" and "\<not> static_ext (URL_Path r)"
    and "URLCache_Get c w (URLParam_alias r) = (Inr v, w1)"
  shows "New g c r w =
    ((http_Redirect v StatusFound,
      [ev_cache_Get (URLParam_alias r) (Inr v),
       log_Info ''got url from cache'' [(''url'', v)]]), w1)"
  using assms by (simp add: New_def Let_def)

text \<open>What the handler has done when the cache answered with an error.\<close>

definition after_cache_error :: "string \<Rightarrow> error \<Rightarrow> event list" where
  "after_cache_error alias err =
     ev_cache_Get alias (Inl err) #
     (if err \<noteq> redis_Nil then [log_Error ''failed to get url from cache'' err] else [])"

lemma New_store_not_found:
  assumes "URLParam_alias r \<noteq> []" and "\<not> static_ext (URL_Path r)"
    and "URLCache_Get c w (URLParam_alias r) = (Inl e, w1)"
    and "g w1 (URLParam_alias r) = (Inl e2, w2)"
    and "errors_Is e2 ErrURLNotFound"
  shows "New g c r w =
    ((render_JSON (resp_Error ''not found''),
      after_cache_error (URLParam_alias r) e @
      [ev_GetURL (URLParam_alias r) (Inl e2),
       log_Info ''url not found'' [(''alias'', URLParam_alias r)]]), w2)"
  using assms by (simp add: New_def Let_def after_cache_error_def)

lemma New_store_failed:
  assumes "URLParam_alias r \<noteq> []" and "\<not> static_ext (URL_Path r)"
    and "URLCache_Get c w (URLParam_alias r) = (Inl e, w1)"
    and "g w1 (URLParam_alias r) = (Inl e2, w2)"
    and "\<not> errors_Is e2 ErrURLNotFound"
  shows "New g c r w =
    ((render_JSON (resp_Error ''internal error''),
      after_cache_error (URLParam_alias r) e @
      [ev_GetURL (URLParam_alias r) (Inl e2),
       log_Error ''failed to get url'' e2]), w2)"
  using assms by (simp add: New_def Let_def after_cache_error_def)

lemma New_store_found:
  assumes "URLParam_alias r \<noteq> []" and "\<not> static_ext (URL_Path r)"
    and "URLCache_Get c w (URLParam_alias r) = (Inl e, w1)"
    and "g w1 (URLParam_alias r) = (Inr u, w2)"
    and "URLCache_Set c w2 (URLParam_alias r) u (5 * Minute) = (serr, w3)"
  shows "New g c r w =
    ((http_Redirect u StatusFound,
      after_cache_error (URLParam_alias r) e @
      [ev_GetURL (URLParam_alias r) (Inr u),
       log_Info ''got url from storage'' [(''url'', u)],
       ev_cache_Set (URLParam_alias r) u (5 * Minute) serr] @
      (case serr of Some e' \<Rightarrow> [log_Error ''failed to set url to cache'' e'] | None \<Rightarrow> [])), w3)"
  using assms by (simp add: New_def Let_def after_cache_error_def)

lemma New_cases [case_names empty_alias static hit not_found failed found]:
  obtains
    "URLParam_alias r = []"
  | "URLParam_alias r \<noteq> []" "static_ext (URL_Path r)"
  | v w1 where "URLParam_alias r \<noteq> []" "\<not> static_ext (URL_Path r)"
      "URLCache_Get c w (URLParam_alias r) = (Inr v, w1)"
  | e w1 e2 w2 where "URLParam_alias r \<noteq> []" "\<not> static_ext (URL_Path r)"
      "URLCache_Get c w (URLParam_alias r) = (Inl e, w1)"
      "g w1 (URLParam_alias r) = (Inl e2, w2)" "errors_Is e2 ErrURLNotFound"
  | e w1 e2 w2 where "URLParam_alias r \<noteq> []" "\<not> static_ext (URL_Path r)"
      "URLCache_Get c w (URLParam_alias r) = (Inl e, w1)"
      "g w1 (URLParam_alias r) = (Inl e2, w2)" "\<not> errors_Is e2 ErrURLNotFound"
  | e w1 u w2 serr w3 where "URLParam_alias r \<noteq> []" "\<not> static_ext (URL_Path r)"
      "URLCache_Get c w (URLParam_alias r) = (Inl e, w1)"
      "g w1 (URLParam_alias r) = (Inr u, w2)"
      "URLCache_Set c w2 (URLParam_alias r) u (5 * Minute) = (serr, w3)"
proof (cases "URLParam_alias r = []")
  case True
  then show ?thesis using that(1) by blast
next
  case nonempty: False
  show ?thesis
  proof (cases "static_ext (URL_Path r)")
    case True
    with nonempty show ?thesis using that(2) by blast
  next
    case nostatic: False
    obtain cres w1 where cg: "URLCache_Get c w (URLParam_alias r) = (cres, w1)"
      by (cases "URLCache_Get c w (URLParam_alias r)")
    show ?thesis
    proof (cases cres)
      case (Inr v)
      with nonempty nostatic cg show ?thesis using that(3) by blast
    next
      case (Inl e)
      obtain sres w2 where sg: "g w1 (URLParam_alias r) = (sres, w2)"
        by (cases "g w1 (URLParam_alias r)")
      show ?thesis
      proof (cases sres)
        case (Inl e2)
        show ?thesis
        proof (cases "errors_Is e2 ErrURLNotFound")
          case True
          with nonempty nostatic cg sg \<open>cres = Inl e\<close> \<open>sres = Inl e2\<close> show ?thesis
            using that(4) by blast
        next
          case False
          with nonempty nostatic cg sg \<open>cres = Inl e\<close> \<open>sres = Inl e2\<close> show ?thesis
            using that(5) by blast
        qed
      next
        case (Inr u)
        obtain serr w3 where
          "URLCache_Set c w2 (URLParam_alias r) u (5 * Minute) = (serr, w3)"
          by (cases "URLCache_Set c w2 (URLParam_alias r) u (5 * Minute)")
        with nonempty nostatic cg sg \<open>cres = Inl e\<close> \<open>sres = Inr u\<close> show ?thesis
          using that(6) by blast
      qed
    qed
  qed
qed

lemmas run_defs = response_of_def trace_of_def world_of_def

section \<open>The world: a PostgreSQL table and a Redis server\<close>

text \<open>
  The table as \<^verbatim>\<open>postgres.New\<close> creates it:
  \<^verbatim>\<open>url(id SERIAL PRIMARY KEY, alias TEXT NOT NULL UNIQUE, url TEXT NOT NULL)\<close>.
  \<open>url_id_seq\<close> is the last value the \<^verbatim>\<open>SERIAL\<close> sequence gave out.
  \<open>pg_fault\<close> and \<open>redis_fault\<close> are faults of the infrastructure in force while a
  request runs (a lost connection, a timeout): \<open>prepare_fails e\<close> makes
  \<^verbatim>\<open>db.Prepare\<close> return \<open>e\<close>, \<open>query_fails e\<close> makes \<^verbatim>\<open>QueryRow(...).Scan\<close> return
  \<open>e\<close>, and a Redis fault makes every Redis command return it.
  A Redis key holds a value and, when it was set with an expiration, the time at
  which it expires; \<open>clock\<close> is the server's time in nanoseconds.
\<close>

record url_row =
  row_id :: int
  row_alias :: string
  row_url :: string

datatype db_fault = prepare_fails error | query_fails error

record world =
  url_table :: "url_row list"
  url_id_seq :: int
  pg_fault :: "db_fault option"
  redis_keys :: "string \<rightharpoonup> string \<times> int option"
  redis_fault :: "error option"
  clock :: int

subsection \<open>Storage (PostgreSQL)\<close>

definition db_Prepare :: "world \<Rightarrow> error option" where
  "db_Prepare w =
     (case pg_fault w of
        Some (prepare_fails e) \<Rightarrow> Some e
      | Some (query_fails e) \<Rightarrow> None
      | None \<Rightarrow> None)"

text \<open>
  \<^verbatim>\<open>INSERT INTO url(url, alias) VALUES($1, $2) RETURNING id\<close>. The default of
  \<open>id\<close> takes the next value of the sequence before the row is checked, so a rejected
  insert uses up an id. The \<^verbatim>\<open>UNIQUE\<close> constraint on \<open>alias\<close> rejects it with
  SQLSTATE 23505 (unique_violation).
\<close>

definition insert_url :: "world \<Rightarrow> string \<Rightarrow> string \<Rightarrow> (error + int) \<times> world" where
  "insert_url w urlToSave alias =
     (case pg_fault w of
        Some (query_fails e) \<Rightarrow> (Inl e, w)
      | Some (prepare_fails e) \<Rightarrow> (Inl e, w)
      | None \<Rightarrow>
          (let i = url_id_seq w + 1 in
           if alias \<in> set (map row_alias (url_table w)) then
             (Inl (pq_Error ''23505''), w\<lparr>url_id_seq := i\<rparr>)
           else
             (Inr i,
              w\<lparr>url_id_seq := i,
                url_table := url_table w @
                  [\<lparr>row_id = i, row_alias = alias, row_url = urlToSave\<rparr>]\<rparr>)))"

definition SaveURL :: "world URLSaver" where
  "SaveURL w urlToSave alias =
     (let opn = ''storage.postgres.SaveURL'' in
      case db_Prepare w of
        Some err \<Rightarrow> (Inl (Errorf opn err), w)
      | None \<Rightarrow>
          (case insert_url w urlToSave alias of
             (Inl err, w') \<Rightarrow>
               (case err of
                  pq_Error code \<Rightarrow>
                    if code = ''23505'' then (Inl (Errorf opn ErrURLExists), w')
                    else (Inl (Errorf opn err), w')
                | _ \<Rightarrow> (Inl (Errorf opn err), w'))
           | (Inr id', w') \<Rightarrow> (Inr id', w')))"

text \<open>
  \<^verbatim>\<open>SELECT url FROM url WHERE alias = $1\<close>, scanned into one string: the first
  matching row, or \<^verbatim>\<open>sql.ErrNoRows\<close>.
\<close>

definition select_url :: "world \<Rightarrow> string \<Rightarrow> error + string" where
  "select_url w alias =
     (case pg_fault w of
        Some (query_fails e) \<Rightarrow> Inl e
      | Some (prepare_fails e) \<Rightarrow> Inl e
      | None \<Rightarrow>
          (case find (\<lambda>row. row_alias row = alias) (url_table w) of
             None \<Rightarrow> Inl sql_ErrNoRows
           | Some row \<Rightarrow> Inr (row_url row)))"

definition GetURL :: "world URLGetter" where
  "GetURL w alias =
     (let opn = ''storage.postgres.GetURL'' in
      case db_Prepare w of
        Some err \<Rightarrow> (Inl (Errorf (opn @ '': prepare statement'') err), w)
      | None \<Rightarrow>
          (case select_url w alias of
             Inl err \<Rightarrow>
               if err = sql_ErrNoRows then (Inl ErrURLNotFound, w)
               else (Inl (Errorf (opn @ '': execute statement'') err), w)
           | Inr resURL \<Rightarrow> (Inr resURL, w)))"

subsection \<open>Cache (Redis)\<close>

text \<open>
  \<^verbatim>\<open>client.Set(ctx, key, value, expiration).Err()\<close>: zero expiration stores the key
  without a time to live. \<^verbatim>\<open>client.Get(ctx, key).Result()\<close>: \<^verbatim>\<open>redis.Nil\<close> when the
  key is absent or has expired.
\<close>

definition Cache_Set :: "world \<Rightarrow> string \<Rightarrow> string \<Rightarrow> int \<Rightarrow> error option \<times> world" where
  "Cache_Set w key val expiration =
     (case redis_fault w of
        Some e \<Rightarrow> (Some e, w)
      | None \<Rightarrow>
          (None,
           w\<lparr>redis_keys := (redis_keys w)
                (key \<mapsto> (val, if expiration = 0 then None else Some (clock w + expiration)))\<rparr>))"

definition Cache_Get :: "world \<Rightarrow> string \<Rightarrow> (error + string) \<times> world" where
  "Cache_Get w key =
     (case redis_fault w of
        Some e \<Rightarrow> (Inl e, w)
      | None \<Rightarrow>
          (case redis_keys w key of
             None \<Rightarrow> (Inl redis_Nil, w)
           | Some (val, None) \<Rightarrow> (Inr val, w)
           | Some (val, Some deadline) \<Rightarrow>
               if clock w < deadline then (Inr val, w) else (Inl redis_Nil, w)))"

definition Cache :: "world URLCache" where
  "Cache = \<lparr>URLCache_Get = Cache_Get, URLCache_Set = Cache_Set\<rparr>"

subsection \<open>The server as \<^verbatim>\<open>main\<close> wires it\<close>

text \<open>
  \<^verbatim>\<open>router.Get("/{alias}", redirect.New(log, storage, cache))\<close>: a request for
  \<^verbatim>\<open>/alias\<close> reaches the handler with that parameter and that path.
\<close>

definition redirect_handler ::
  "Request \<Rightarrow> world \<Rightarrow> (http_response \<times> event list) \<times> world" where
  "redirect_handler = New GetURL Cache"

definition GET :: "string \<Rightarrow> Request" where
  "GET alias = \<lparr>URLParam_alias = alias, URL_Path = ''/'' @ alias\<rparr>"

text \<open>A freshly created database and an empty cache, both reachable.\<close>

definition world0 :: world where
  "world0 = \<lparr>url_table = [], url_id_seq = 0, pg_fault = None,
             redis_keys = Map.empty, redis_fault = None, clock = 0\<rparr>"

section \<open>Vocabulary of the properties\<close>

text \<open>Which events are accesses to the durable store, and which are cache writes.\<close>

fun is_store_access :: "event \<Rightarrow> bool" where
  "is_store_access (ev_GetURL a res) = True"
| "is_store_access (ev_SaveURL u a res) = True"
| "is_store_access ev = False"

fun is_cache_write :: "event \<Rightarrow> bool" where
  "is_cache_write (ev_cache_Set k v t res) = True"
| "is_cache_write ev = False"

text \<open>
  The answer of the handler as a function of the store's result alone (the three
  branches after \<^verbatim>\<open>urlGetter.GetURL\<close>).
\<close>

fun store_response :: "error + string \<Rightarrow> http_response" where
  "store_response (Inl e) =
     (if errors_Is e ErrURLNotFound then render_JSON (resp_Error ''not found'')
      else render_JSON (resp_Error ''internal error''))"
| "store_response (Inr u) = http_Redirect u StatusFound"

text \<open>
  The static-asset paths as the specification words them: a path that ends in one of
  the five extensions.
\<close>

definition spec_static_asset_path :: "string \<Rightarrow> bool" where
  "spec_static_asset_path path =
     (\<exists>s \<in> set [''.css'', ''.js'', ''.png'', ''.jpg'', ''.ico'']. suffix s path)"

lemma static_ext_is_static_asset_path:
  assumes "static_ext path"
  shows "spec_static_asset_path path"
proof -
  let ?ext = "drop (length path - 4) path"
  from assms have "?ext \<in> set [''.css'', ''.js'', ''.png'', ''.jpg'', ''.ico'']"
    by (simp add: static_ext_def Let_def split: if_splits)
  moreover have "suffix ?ext path" by (rule suffix_drop)
  ultimately show ?thesis unfolding spec_static_asset_path_def by blast
qed

section \<open>Facts about the storage and the cache\<close>

lemma find_fresh_append:
  assumes "a \<notin> set (map row_alias rows)"
  shows "find (\<lambda>row. row_alias row = a) (rows @ [\<lparr>row_id = i, row_alias = a, row_url = u\<rparr>])
         = Some \<lparr>row_id = i, row_alias = a, row_url = u\<rparr>"
  using assms by (induction rows) auto

lemma SaveURL_fresh:
  assumes "pg_fault w = None" and "a \<notin> set (map row_alias (url_table w))"
  shows "SaveURL w u a =
    (Inr (url_id_seq w + 1),
     w\<lparr>url_id_seq := url_id_seq w + 1,
       url_table := url_table w @
         [\<lparr>row_id = url_id_seq w + 1, row_alias = a, row_url = u\<rparr>]\<rparr>)"
  using assms by (simp add: SaveURL_def db_Prepare_def insert_url_def Let_def)

lemma GetURL_present:
  assumes "pg_fault w = None"
    and "find (\<lambda>row. row_alias row = a) (url_table w) = Some row"
  shows "GetURL w a = (Inr (row_url row), w)"
  using assms by (simp add: GetURL_def db_Prepare_def select_url_def Let_def)

lemma GetURL_absent:
  assumes "pg_fault w = None" and "a \<notin> set (map row_alias (url_table w))"
  shows "GetURL w a = (Inl ErrURLNotFound, w)"
proof -
  from assms(2) have "find (\<lambda>row. row_alias row = a) (url_table w) = None"
    by (auto simp: find_None_iff)
  with assms(1) show ?thesis
    by (simp add: GetURL_def db_Prepare_def select_url_def Let_def)
qed

lemma GetURL_Inr_iff:
  "fst (GetURL w a) = Inr u \<longleftrightarrow>
     pg_fault w = None \<and>
     (\<exists>row. find (\<lambda>row. row_alias row = a) (url_table w) = Some row \<and> row_url row = u)"
  by (auto simp: GetURL_def db_Prepare_def select_url_def Let_def
      split: option.splits db_fault.splits)

lemma SaveURL_duplicate:
  assumes "pg_fault w = None" and "a \<in> set (map row_alias (url_table w))"
  shows "SaveURL w u a =
    (Inl (Errorf ''storage.postgres.SaveURL'' ErrURLExists),
     w\<lparr>url_id_seq := url_id_seq w + 1\<rparr>)"
  using assms by (simp add: SaveURL_def db_Prepare_def insert_url_def Let_def)

lemma GetURL_ignores_sequence:
  "fst (GetURL (w\<lparr>url_id_seq := i\<rparr>) a) = fst (GetURL w a)"
  by (simp add: GetURL_def db_Prepare_def select_url_def Let_def
      split: option.splits db_fault.splits)

lemma Cache_Get_world: "snd (Cache_Get w k) = w"
  by (simp add: Cache_Get_def split: option.splits prod.splits)

lemma find_Some_alias_in_table:
  assumes "find (\<lambda>row. row_alias row = a) rows = Some row"
  shows "a \<in> set (map row_alias rows)"
  using assms by (auto simp: find_Some_iff)

lemma drop_eq_iff_suffix:
  assumes "length s = n" and "n \<le> length path"
  shows "drop (length path - n) path = s \<longleftrightarrow> suffix s path"
proof
  assume "drop (length path - n) path = s"
  then show "suffix s path" using suffix_drop [of "length path - n" path] by simp
next
  assume "suffix s path"
  then obtain zs where "path = zs @ s" by (auto simp: suffix_def)
  with assms show "drop (length path - n) path = s" by simp
qed

text \<open>What the guard decides: the comparison with \<^verbatim>\<open>".js"\<close> never holds.\<close>

lemma static_ext_iff:
  "static_ext path \<longleftrightarrow>
     length path > 4 \<and>
     (suffix ''.css'' path \<or> suffix ''.png'' path \<or> suffix ''.jpg'' path \<or> suffix ''.ico'' path)"
proof (cases "length path > 4")
  case False
  then show ?thesis by (simp add: static_ext_def)
next
  case True
  then have le: "4 \<le> length path" by simp
  have js: "drop (length path - 4) path \<noteq> ''.js''"
  proof
    assume "drop (length path - 4) path = ''.js''"
    then have "length (drop (length path - 4) path) = 3" by simp
    with le show False by simp
  qed
  from True js show ?thesis
    by (simp add: static_ext_def Let_def
        drop_eq_iff_suffix [where n = 4 and path = path, OF _ le, symmetric])
qed

lemma lookup_unknown_alias:
  assumes "pg_fault w = None" and "a \<notin> set (map row_alias (url_table w))"
    and "a \<noteq> []" and "\<not> static_ext (URL_Path (GET a))"
    and "fst (Cache_Get w a) = Inl e"
  shows "response_of (redirect_handler (GET a) w) = render_JSON (resp_Error ''not found'')
       \<and> status_code (response_of (redirect_handler (GET a) w)) = 200"
proof -
  have cg: "URLCache_Get Cache w (URLParam_alias (GET a)) = (Inl e, w)"
    using assms(5) Cache_Get_world [of w a] by (simp add: Cache_def GET_def prod_eq_iff)
  have g: "GetURL w (URLParam_alias (GET a)) = (Inl ErrURLNotFound, w)"
    using assms(1,2) by (simp add: GET_def GetURL_absent)
  have a: "URLParam_alias (GET a) \<noteq> []" using assms(3) by (simp add: GET_def)
  have "errors_Is ErrURLNotFound ErrURLNotFound" by simp
  from New_store_not_found [where g = GetURL, OF a assms(4) cg g this]
  show ?thesis by (simp add: redirect_handler_def run_defs)
qed

text \<open>The definitions a concrete run is evaluated with.\<close>

lemmas storage_defs = SaveURL_def GetURL_def db_Prepare_def insert_url_def select_url_def
lemmas cache_defs = Cache_def Cache_Get_def Cache_Set_def
lemmas handler_defs = redirect_handler_def New_def GET_def static_ext_def Let_def
lemmas eval_defs = storage_defs cache_defs handler_defs run_defs world0_def
  StatusFound_def Minute_def Second_def

section \<open>The save handler\<close>

text \<open>
  Modelled from the spec: the save handler (\<^verbatim>\<open>save.New\<close> of
  \<^verbatim>\<open>internal/http-server/handlers/url/save\<close>) is not among the sources; its test and
  its callers are. The request and the response are the decoded JSON body
  \<^verbatim>\<open>{url, alias?}\<close> and the status with the \<^verbatim>\<open>{error}\<close> or \<^verbatim>\<open>{alias}\<close> answer.
\<close>

record save_Request =
  URL :: string
  Alias :: string

record save_Response =
  resp_status :: nat
  resp_error :: string
  resp_alias :: string

text \<open>
  Modelled from the spec: the body of \<^verbatim>\<open>save.New\<close>, which is missing, after the
  specification's Save Service (validate; generate an alias when none is given; save;
  on success put the mapping into the cache, best effort; answer) with the statuses and
  messages of its interface section and of \<^verbatim>\<open>save_test.go\<close>. \<open>isURL\<close> is the
  validator's test for a valid URL and \<open>generated\<close> the alias the generator returns in
  this run; both are parameters. An alias-exists error is recognised through
  \<open>errors_Is\<close>, since \<open>SaveURL\<close> returns it wrapped. Log lines are left out.
\<close>

definition save_New ::
  "(string \<Rightarrow> bool) \<Rightarrow> string \<Rightarrow> 'w URLSaver \<Rightarrow> 'w URLCache \<Rightarrow> save_Request \<Rightarrow> 'w
   \<Rightarrow> (save_Response \<times> event list) \<times> 'w" where
  "save_New isURL generated urlSaver urlCache req w =
     (if URL req = [] then
        ((\<lparr>resp_status = 400, resp_error = ''field URL is a required field'',
           resp_alias = []\<rparr>, []), w)
      else if \<not> isURL (URL req) then
        ((\<lparr>resp_status = 400, resp_error = ''field URL is not a valid URL'',
           resp_alias = []\<rparr>, []), w)
      else
        (let alias = (if Alias req = [] then generated else Alias req) in
         case urlSaver w (URL req) alias of
           (Inl err, w1) \<Rightarrow>
             if errors_Is err ErrURLExists then
               ((\<lparr>resp_status = 409, resp_error = ''url already exists'',
                  resp_alias = []\<rparr>,
                 [ev_SaveURL (URL req) alias (Inl err)]), w1)
             else
               ((\<lparr>resp_status = 500, resp_error = ''failed to add url'',
                  resp_alias = []\<rparr>,
                 [ev_SaveURL (URL req) alias (Inl err)]), w1)
         | (Inr i, w1) \<Rightarrow>
             (case URLCache_Set urlCache w1 alias (URL req) (5 * Minute) of
                (serr, w2) \<Rightarrow>
                  ((\<lparr>resp_status = 200, resp_error = [], resp_alias = alias\<rparr>,
                    [ev_SaveURL (URL req) alias (Inr i),
                     ev_cache_Set alias (URL req) (5 * Minute) serr]), w2))))"

text \<open>\<^verbatim>\<open>r.Post("/", save.New(log, storage, cache))\<close> in \<^verbatim>\<open>main\<close>.\<close>

definition save_handler ::
  "(string \<Rightarrow> bool) \<Rightarrow> string \<Rightarrow> save_Request \<Rightarrow> world
   \<Rightarrow> (save_Response \<times> event list) \<times> world" where
  "save_handler isURL generated = save_New isURL generated SaveURL Cache"

section \<open>Example worlds\<close>

text \<open>
  One mapping saved and nothing cached; the same with the mapping cached; the same
  with the Redis server unreachable; and a mapping saved under the alias \<^verbatim>\<open>app.js\<close>. \<open>Cache_always_miss\<close> is a cache whose \<open>Get\<close>
  always answers \<^verbatim>\<open>redis.Nil\<close>.
\<close>

definition world_saved :: world where
  "world_saved = snd (SaveURL world0 ''https://example.com'' ''abc'')"

definition world_cached :: world where
  "world_cached = snd (Cache_Set world_saved ''abc'' ''https://example.com'' (5 * Minute))"

definition world_redis_down :: world where
  "world_redis_down = world_saved\<lparr>redis_fault := Some (other_error ''connection refused'')\<rparr>"

definition world_js :: world where
  "world_js = snd (SaveURL world0 ''https://example.com'' ''app.js'')"

lemmas world_defs = world_saved_def world_cached_def world_redis_down_def world_js_def

definition Cache_always_miss :: "world URLCache" where
  "Cache_always_miss = Cache\<lparr>URLCache_Get := \<lambda>w key. (Inl redis_Nil, w)\<rparr>"

section \<open>Save, then resolve\<close>

text \<open>
  Claim C1, as the code has it. On a database without fault, for every URL string and
  every non-empty alias that is not in the table and whose path \<^verbatim>\<open>/alias\<close> does not
  end in one of the static-asset extensions: \<open>SaveURL\<close> succeeds with the next id, and
  the redirect handler, run next with a cache that does not hold the alias (a miss or
  a cache error), answers with a 302 redirect to exactly the saved URL.
\<close>

theorem save_then_resolve:
  assumes healthy: "pg_fault w = None"
    and unused: "alias \<notin> set (map row_alias (url_table w))"
    and nonempty: "alias \<noteq> []"
    and nostatic: "\<not> spec_static_asset_path (URL_Path (GET alias))"
    and miss: "fst (Cache_Get (snd (SaveURL w url alias)) alias) = Inl e"
  shows "fst (SaveURL w url alias) = Inr (url_id_seq w + 1)
       \<and> response_of (redirect_handler (GET alias) (snd (SaveURL w url alias)))
           = http_Redirect url StatusFound
       \<and> status_code (response_of (redirect_handler (GET alias) (snd (SaveURL w url alias))))
           = 302"
proof -
  let ?w1 = "snd (SaveURL w url alias)"
  have saved: "SaveURL w url alias =
    (Inr (url_id_seq w + 1),
     w\<lparr>url_id_seq := url_id_seq w + 1,
       url_table := url_table w @
         [\<lparr>row_id = url_id_seq w + 1, row_alias = alias, row_url = url\<rparr>]\<rparr>)"
    using healthy unused by (rule SaveURL_fresh)
  have got: "GetURL ?w1 alias = (Inr url, ?w1)"
    using healthy find_fresh_append [OF unused]
    by (simp add: saved GetURL_present)
  have cg: "URLCache_Get Cache ?w1 (URLParam_alias (GET alias)) = (Inl e, ?w1)"
    using miss Cache_Get_world [of ?w1 "alias"]
    by (simp add: Cache_def GET_def prod_eq_iff)
  obtain serr w3 where cs:
    "URLCache_Set Cache ?w1 (URLParam_alias (GET alias)) url (5 * Minute) = (serr, w3)"
    by (cases "URLCache_Set Cache ?w1 (URLParam_alias (GET alias)) url (5 * Minute)")
  have a: "URLParam_alias (GET alias) \<noteq> []" using nonempty by (simp add: GET_def)
  have b: "\<not> static_ext (URL_Path (GET alias))"
    using nostatic static_ext_is_static_asset_path by blast
  have g: "GetURL ?w1 (URLParam_alias (GET alias)) = (Inr url, ?w1)"
    using got by (simp add: GET_def)
  have "response_of (redirect_handler (GET alias) ?w1) = http_Redirect url StatusFound"
    unfolding redirect_handler_def
    by (simp add: New_store_found [where g = GetURL, OF a b cg g cs] run_defs)
  then show ?thesis by (simp add: saved StatusFound_def)
qed

theorem save_then_resolve_witness:
  "fst (SaveURL world0 ''https://example.com'' ''abc'') = Inr 1
   \<and> response_of (redirect_handler (GET ''abc'')
         (snd (SaveURL world0 ''https://example.com'' ''abc'')))
       = http_Redirect ''https://example.com'' 302"
proof -
  have h1: "pg_fault world0 = None" by (simp add: world0_def)
  have h2: "''abc'' \<notin> set (map row_alias (url_table world0))" by (simp add: world0_def)
  have h3: "''abc'' \<noteq> []" by simp
  have h4: "\<not> spec_static_asset_path (URL_Path (GET ''abc''))"
    by (simp add: spec_static_asset_path_def GET_def suffix_to_prefix)
  have h5: "fst (Cache_Get (snd (SaveURL world0 ''https://example.com'' ''abc'')) ''abc'')
            = Inl redis_Nil"
    by (simp add: eval_defs)
  show ?thesis
    using save_then_resolve [OF h1 h2 h3 h4 h5] by (simp add: world0_def StatusFound_def)
qed

text \<open>
  The claim as written fails for an alias that looks like a static file: the alias
  \<^verbatim>\<open>a.png\<close> is unused and is saved, and the request for \<^verbatim>\<open>/a.png\<close> is answered by
  the static-file guard with \<^verbatim>\<open>http.NotFound\<close>, not with a redirect to the saved URL.
\<close>

theorem save_then_resolve_counterexample:
  "''a.png'' \<notin> set (map row_alias (url_table world0))
   \<and> fst (SaveURL world0 ''https://example.com'' ''a.png'') = Inr 1
   \<and> fst (Cache_Get (snd (SaveURL world0 ''https://example.com'' ''a.png'')) ''a.png'')
       = Inl redis_Nil
   \<and> response_of (redirect_handler (GET ''a.png'')
         (snd (SaveURL world0 ''https://example.com'' ''a.png''))) = http_NotFound
   \<and> response_of (redirect_handler (GET ''a.png'')
         (snd (SaveURL world0 ''https://example.com'' ''a.png'')))
       \<noteq> http_Redirect ''https://example.com'' StatusFound"
  by (simp add: eval_defs)

section \<open>The lookup path, for any store and any cache\<close>

text \<open>
  Claim C5. When the cache's Get returned a value with no error, the handler answers
  with a 302 redirect to that value; it did nothing but that Get and one log line: no
  access to the durable store, no cache write, and the world is the one the Get left.
\<close>

theorem cache_hit_redirects_without_store:
  assumes hit: "ev_cache_Get k (Inr v) \<in> set (trace_of (New g c r w))"
  shows "response_of (New g c r w) = http_Redirect v StatusFound
       \<and> status_code (response_of (New g c r w)) = 302
       \<and> trace_of (New g c r w) =
           [ev_cache_Get k (Inr v), log_Info ''got url from cache'' [(''url'', v)]]
       \<and> filter is_store_access (trace_of (New g c r w)) = []
       \<and> filter is_cache_write (trace_of (New g c r w)) = []
       \<and> k = URLParam_alias r
       \<and> URLCache_Get c w k = (Inr v, world_of (New g c r w))"
proof (cases rule: New_cases [where r = r and c = c and w = w and g = g])
  case empty_alias
  with hit show ?thesis by (simp add: New_empty_alias run_defs)
next
  case static
  with hit show ?thesis by (simp add: New_static run_defs)
next
  case (hit v' w1)
  with assms show ?thesis by (auto simp: New_hit run_defs StatusFound_def)
next
  case (not_found e w1 e2 w2)
  with hit show ?thesis
    by (auto simp: New_store_not_found [where g = g, OF not_found] run_defs
        after_cache_error_def split: if_splits)
next
  case (failed e w1 e2 w2)
  with hit show ?thesis
    by (auto simp: New_store_failed [where g = g, OF failed] run_defs
        after_cache_error_def split: if_splits)
next
  case (found e w1 u w2 serr w3)
  with hit show ?thesis
    by (auto simp: New_store_found [where g = g, OF found] run_defs
        after_cache_error_def split: if_splits option.splits)
qed

theorem cache_hit_redirects_without_store_witness:
  "ev_cache_Get ''abc'' (Inr ''https://example.com'')
     \<in> set (trace_of (New GetURL Cache (GET ''abc'') world_cached))
   \<and> response_of (New GetURL Cache (GET ''abc'') world_cached)
       = http_Redirect ''https://example.com'' 302
   \<and> filter is_store_access (trace_of (New GetURL Cache (GET ''abc'') world_cached)) = []
   \<and> filter is_cache_write (trace_of (New GetURL Cache (GET ''abc'') world_cached)) = []"
proof -
  have h: "ev_cache_Get ''abc'' (Inr ''https://example.com'')
     \<in> set (trace_of (New GetURL Cache (GET ''abc'') world_cached))"
    by (simp add: eval_defs world_defs)
  show ?thesis
    using h cache_hit_redirects_without_store [OF h] by (simp add: StatusFound_def)
qed

text \<open>
  Claim C6. When the cache's Get returned an error, \<^verbatim>\<open>redis.Nil\<close> or any other, the
  handler goes on to the store's \<open>GetURL\<close> for the same alias in the world the Get
  left, and its answer is a function of the store's result alone: the cache error is
  never turned into the response.
\<close>

theorem cache_error_falls_through:
  assumes err: "ev_cache_Get k (Inl e) \<in> set (trace_of (New g c r w))"
  shows "\<exists>w1 res w2.
           URLCache_Get c w k = (Inl e, w1) \<and> g w1 k = (res, w2)
         \<and> ev_GetURL k res \<in> set (trace_of (New g c r w))
         \<and> response_of (New g c r w) = store_response res"
proof (cases rule: New_cases [where r = r and c = c and w = w and g = g])
  case empty_alias
  with err show ?thesis by (simp add: New_empty_alias run_defs)
next
  case static
  with err show ?thesis by (simp add: New_static run_defs)
next
  case (hit v' w1)
  with err show ?thesis by (auto simp: New_hit run_defs)
next
  case (not_found e' w1 e2 w2)
  with err show ?thesis
    by (auto simp: New_store_not_found [where g = g, OF not_found] run_defs
        after_cache_error_def split: if_splits)
next
  case (failed e' w1 e2 w2)
  with err show ?thesis
    by (auto simp: New_store_failed [where g = g, OF failed] run_defs
        after_cache_error_def split: if_splits)
next
  case (found e' w1 u w2 serr w3)
  with err show ?thesis
    by (auto simp: New_store_found [where g = g, OF found] run_defs
        after_cache_error_def split: if_splits option.splits)
qed

theorem cache_error_falls_through_witness:
  "ev_cache_Get ''abc'' (Inl (other_error ''connection refused''))
     \<in> set (trace_of (New GetURL Cache (GET ''abc'') world_redis_down))
   \<and> (\<exists>w1 res w2.
         URLCache_Get Cache world_redis_down ''abc''
           = (Inl (other_error ''connection refused''), w1)
       \<and> GetURL w1 ''abc'' = (res, w2)
       \<and> ev_GetURL ''abc'' res \<in> set (trace_of (New GetURL Cache (GET ''abc'') world_redis_down))
       \<and> response_of (New GetURL Cache (GET ''abc'') world_redis_down) = store_response res)"
proof -
  have h: "ev_cache_Get ''abc'' (Inl (other_error ''connection refused''))
     \<in> set (trace_of (New GetURL Cache (GET ''abc'') world_redis_down))"
    by (simp add: eval_defs world_defs)
  show ?thesis
    using h cache_error_falls_through [OF h] by simp
qed

text \<open>
  Claim C7, as the code has it. A cache error other than \<^verbatim>\<open>redis.Nil\<close> is logged
  (\<^verbatim>\<open>failed to get url from cache\<close>) and then takes the same path as a miss: compared
  with a run in which the Get answered \<^verbatim>\<open>redis.Nil\<close> and left the same world, the
  response and the final world are equal, and the trace differs only in the Get's
  result and the added log line. The store is read in both.
\<close>

theorem cache_fault_takes_miss_path:
  assumes "URLParam_alias r \<noteq> []" and "\<not> static_ext (URL_Path r)"
    and "URLCache_Get c w (URLParam_alias r) = (Inl e, w1)"
    and "e \<noteq> redis_Nil"
    and "URLCache_Get c' w (URLParam_alias r) = (Inl redis_Nil, w1)"
    and "URLCache_Set c' = URLCache_Set c"
  shows "response_of (New g c r w) = response_of (New g c' r w)
       \<and> world_of (New g c r w) = world_of (New g c' r w)
       \<and> hd (trace_of (New g c' r w)) = ev_cache_Get (URLParam_alias r) (Inl redis_Nil)
       \<and> trace_of (New g c r w) =
           ev_cache_Get (URLParam_alias r) (Inl e) #
           log_Error ''failed to get url from cache'' e #
           tl (trace_of (New g c' r w))
       \<and> (\<exists>res. ev_GetURL (URLParam_alias r) res \<in> set (trace_of (New g c r w)))"
proof -
  obtain sres w2 where sg: "g w1 (URLParam_alias r) = (sres, w2)"
    by (cases "g w1 (URLParam_alias r)")
  show ?thesis
  proof (cases sres)
    case (Inl e2)
    with assms sg show ?thesis
      by (cases "errors_Is e2 ErrURLNotFound")
         (simp_all add: New_store_not_found [where g = g] New_store_failed [where g = g]
           run_defs after_cache_error_def)
  next
    case (Inr u)
    obtain serr w3 where
      cs: "URLCache_Set c w2 (URLParam_alias r) u (5 * Minute) = (serr, w3)"
      by (cases "URLCache_Set c w2 (URLParam_alias r) u (5 * Minute)")
    with assms have cs': "URLCache_Set c' w2 (URLParam_alias r) u (5 * Minute) = (serr, w3)"
      by simp
    from assms sg Inr cs cs' show ?thesis
      by (simp add: New_store_found [where g = g] run_defs after_cache_error_def)
  qed
qed

theorem cache_fault_takes_miss_path_witness:
  "response_of (New GetURL Cache (GET ''abc'') world_redis_down)
     = response_of (New GetURL Cache_always_miss (GET ''abc'') world_redis_down)
   \<and> response_of (New GetURL Cache (GET ''abc'') world_redis_down)
     = http_Redirect ''https://example.com'' 302
   \<and> log_Error ''failed to get url from cache'' (other_error ''connection refused'')
       \<in> set (trace_of (New GetURL Cache (GET ''abc'') world_redis_down))
   \<and> (\<exists>res. ev_GetURL ''abc'' res
         \<in> set (trace_of (New GetURL Cache (GET ''abc'') world_redis_down)))"
proof -
  have h1: "URLParam_alias (GET ''abc'') \<noteq> []" by (simp add: GET_def)
  have h2: "\<not> static_ext (URL_Path (GET ''abc''))" by (simp add: GET_def static_ext_def)
  have h3: "URLCache_Get Cache world_redis_down (URLParam_alias (GET ''abc''))
            = (Inl (other_error ''connection refused''), world_redis_down)"
    by (simp add: eval_defs world_defs)
  have h4: "other_error ''connection refused'' \<noteq> redis_Nil" by simp
  have h5: "URLCache_Get Cache_always_miss world_redis_down (URLParam_alias (GET ''abc''))
            = (Inl redis_Nil, world_redis_down)"
    by (simp add: Cache_always_miss_def)
  have h6: "URLCache_Set Cache_always_miss = URLCache_Set Cache"
    by (simp add: Cache_always_miss_def)
  have r: "response_of (New GetURL Cache (GET ''abc'') world_redis_down)
     = http_Redirect ''https://example.com'' 302"
    by (simp add: eval_defs world_defs)
  have l: "log_Error ''failed to get url from cache'' (other_error ''connection refused'')
       \<in> set (trace_of (New GetURL Cache (GET ''abc'') world_redis_down))"
    by (simp add: eval_defs world_defs)
  note t = cache_fault_takes_miss_path [where g = GetURL, OF h1 h2 h3 h4 h5 h6]
  have c1: "response_of (New GetURL Cache (GET ''abc'') world_redis_down)
     = response_of (New GetURL Cache_always_miss (GET ''abc'') world_redis_down)"
    using t by blast
  have c4: "\<exists>res. ev_GetURL ''abc'' res
         \<in> set (trace_of (New GetURL Cache (GET ''abc'') world_redis_down))"
    using t by (auto simp: GET_def)
  from c1 r l c4 show ?thesis by blast
qed

text \<open>
  The claim as written fails: with the Redis server unreachable the Get returns an
  error that is not \<^verbatim>\<open>redis.Nil\<close>, and the handler still reads the store and answers
  exactly as it does on a miss.
\<close>

theorem cache_fault_counterexample:
  "ev_cache_Get ''abc'' (Inl (other_error ''connection refused''))
     \<in> set (trace_of (redirect_handler (GET ''abc'') world_redis_down))
   \<and> other_error ''connection refused'' \<noteq> redis_Nil
   \<and> ev_cache_Get ''abc'' (Inl redis_Nil)
     \<in> set (trace_of (redirect_handler (GET ''abc'') world_saved))
   \<and> ev_GetURL ''abc'' (Inr ''https://example.com'')
     \<in> set (trace_of (redirect_handler (GET ''abc'') world_redis_down))
   \<and> ev_GetURL ''abc'' (Inr ''https://example.com'')
     \<in> set (trace_of (redirect_handler (GET ''abc'') world_saved))
   \<and> response_of (redirect_handler (GET ''abc'') world_redis_down)
     = response_of (redirect_handler (GET ''abc'') world_saved)
   \<and> response_of (redirect_handler (GET ''abc'') world_redis_down)
     = http_Redirect ''https://example.com'' StatusFound"
  by (simp add: eval_defs world_defs)

text \<open>
  Claim C8. When the store returned a URL for the alias, the handler calls the cache's
  Set with the alias, that URL and five minutes (300 seconds) before it answers; the
  world it leaves is the one that Set left; if the Set failed, the failure is logged;
  and the answer is a 302 redirect to the URL either way.
\<close>

theorem store_result_written_back:
  assumes got: "ev_GetURL k (Inr u) \<in> set (trace_of (New g c r w))"
  shows "k = URLParam_alias r
       \<and> response_of (New g c r w) = http_Redirect u StatusFound
       \<and> status_code (response_of (New g c r w)) = 302
       \<and> 5 * Minute = 300 * Second
       \<and> (\<exists>e w1 w2 serr.
             URLCache_Get c w k = (Inl e, w1) \<and> g w1 k = (Inr u, w2)
           \<and> URLCache_Set c w2 k u (5 * Minute) = (serr, world_of (New g c r w))
           \<and> ev_cache_Set k u (5 * Minute) serr \<in> set (trace_of (New g c r w))
           \<and> (case serr of
                 Some e' \<Rightarrow> log_Error ''failed to set url to cache'' e'
                             \<in> set (trace_of (New g c r w))
               | None \<Rightarrow> True))"
proof (cases rule: New_cases [where r = r and c = c and w = w and g = g])
  case empty_alias
  with got show ?thesis by (simp add: New_empty_alias run_defs)
next
  case static
  with got show ?thesis by (simp add: New_static run_defs)
next
  case (hit v' w1)
  with got show ?thesis by (auto simp: New_hit run_defs)
next
  case (not_found e' w1 e2 w2)
  with got show ?thesis
    by (auto simp: New_store_not_found [where g = g, OF not_found] run_defs
        after_cache_error_def split: if_splits)
next
  case (failed e' w1 e2 w2)
  with got show ?thesis
    by (auto simp: New_store_failed [where g = g, OF failed] run_defs
        after_cache_error_def split: if_splits)
next
  case (found e' w1 u' w2 serr w3)
  with got show ?thesis
    by (auto simp: New_store_found [where g = g, OF found] run_defs StatusFound_def
        Minute_def after_cache_error_def split: if_splits option.splits)
qed

theorem store_result_written_back_witness:
  "ev_GetURL ''abc'' (Inr ''https://example.com'')
     \<in> set (trace_of (New GetURL Cache (GET ''abc'') world_redis_down))
   \<and> response_of (New GetURL Cache (GET ''abc'') world_redis_down)
       = http_Redirect ''https://example.com'' 302
   \<and> (\<exists>e w1 w2 serr.
         URLCache_Get Cache world_redis_down ''abc'' = (Inl e, w1)
       \<and> GetURL w1 ''abc'' = (Inr ''https://example.com'', w2)
       \<and> URLCache_Set Cache w2 ''abc'' ''https://example.com'' (5 * Minute)
           = (serr, world_of (New GetURL Cache (GET ''abc'') world_redis_down))
       \<and> ev_cache_Set ''abc'' ''https://example.com'' (5 * Minute) serr
           \<in> set (trace_of (New GetURL Cache (GET ''abc'') world_redis_down))
       \<and> (case serr of
             Some e' \<Rightarrow> log_Error ''failed to set url to cache'' e'
                         \<in> set (trace_of (New GetURL Cache (GET ''abc'') world_redis_down))
           | None \<Rightarrow> True))
   \<and> log_Error ''failed to set url to cache'' (other_error ''connection refused'')
       \<in> set (trace_of (New GetURL Cache (GET ''abc'') world_redis_down))"
proof -
  have h: "ev_GetURL ''abc'' (Inr ''https://example.com'')
     \<in> set (trace_of (New GetURL Cache (GET ''abc'') world_redis_down))"
    by (simp add: eval_defs world_defs)
  have l: "log_Error ''failed to set url to cache'' (other_error ''connection refused'')
       \<in> set (trace_of (New GetURL Cache (GET ''abc'') world_redis_down))"
    by (simp add: eval_defs world_defs)
  show ?thesis
    using h l store_result_written_back [OF h] by (simp add: StatusFound_def)
qed

text \<open>
  Claim C10. Every cache write of the handler is for the requested alias, carries the
  value the store returned for that alias in this run, and has the five-minute
  expiration; a run makes at most that one write.
\<close>

theorem cache_writes_originate_from_store:
  assumes wr: "ev_cache_Set k v t res \<in> set (trace_of (New g c r w))"
  shows "k = URLParam_alias r \<and> t = 5 * Minute
       \<and> ev_GetURL k (Inr v) \<in> set (trace_of (New g c r w))
       \<and> (\<exists>e w1 w2.
             URLCache_Get c w k = (Inl e, w1) \<and> g w1 k = (Inr v, w2)
           \<and> URLCache_Set c w2 k v t = (res, world_of (New g c r w)))
       \<and> filter is_cache_write (trace_of (New g c r w)) = [ev_cache_Set k v t res]"
proof (cases rule: New_cases [where r = r and c = c and w = w and g = g])
  case empty_alias
  with wr show ?thesis by (simp add: New_empty_alias run_defs)
next
  case static
  with wr show ?thesis by (simp add: New_static run_defs)
next
  case (hit v' w1)
  with wr show ?thesis by (auto simp: New_hit run_defs)
next
  case (not_found e' w1 e2 w2)
  with wr show ?thesis
    by (auto simp: New_store_not_found [where g = g, OF not_found] run_defs
        after_cache_error_def split: if_splits)
next
  case (failed e' w1 e2 w2)
  with wr show ?thesis
    by (auto simp: New_store_failed [where g = g, OF failed] run_defs
        after_cache_error_def split: if_splits)
next
  case (found e' w1 u' w2 serr w3)
  with wr show ?thesis
    by (auto simp: New_store_found [where g = g, OF found] run_defs
        after_cache_error_def split: if_splits option.splits)
qed

theorem cache_writes_originate_from_store_witness:
  "ev_cache_Set ''abc'' ''https://example.com'' (5 * Minute) None
     \<in> set (trace_of (New GetURL Cache (GET ''abc'') world_saved))
   \<and> ev_GetURL ''abc'' (Inr ''https://example.com'')
       \<in> set (trace_of (New GetURL Cache (GET ''abc'') world_saved))
   \<and> filter is_cache_write (trace_of (New GetURL Cache (GET ''abc'') world_saved))
       = [ev_cache_Set ''abc'' ''https://example.com'' (5 * Minute) None]"
proof -
  have h: "ev_cache_Set ''abc'' ''https://example.com'' (5 * Minute) None
     \<in> set (trace_of (New GetURL Cache (GET ''abc'') world_saved))"
    by (simp add: eval_defs world_defs)
  show ?thesis
    using h cache_writes_originate_from_store [OF h] by simp
qed

section \<open>Conflicts, unknown aliases, static paths, validation\<close>

text \<open>
  Claim C2. When the alias is present in the store and resolves to \<open>u\<close>, a second save
  with that alias fails: the insert is rejected by the unique constraint with code
  23505, which \<open>SaveURL\<close> turns into the wrapped \<open>ErrURLExists\<close>; the save handler
  answers 409 \<^verbatim>\<open>url already exists\<close>; the table is unchanged and the alias still
  resolves to \<open>u\<close>, after \<open>SaveURL\<close> and after the handler.
\<close>

theorem duplicate_alias_conflict:
  assumes present: "fst (GetURL w alias) = Inr u"
    and valid: "url2 \<noteq> []" "isURL url2"
    and given: "alias \<noteq> []"
  shows "fst (insert_url w url2 alias) = Inl (pq_Error ''23505'')
       \<and> fst (SaveURL w url2 alias) = Inl (Errorf ''storage.postgres.SaveURL'' ErrURLExists)
       \<and> url_table (snd (SaveURL w url2 alias)) = url_table w
       \<and> fst (GetURL (snd (SaveURL w url2 alias)) alias) = Inr u
       \<and> resp_status (response_of
            (save_handler isURL generated \<lparr>URL = url2, Alias = alias\<rparr> w)) = 409
       \<and> resp_error (response_of
            (save_handler isURL generated \<lparr>URL = url2, Alias = alias\<rparr> w))
           = ''url already exists''
       \<and> trace_of (save_handler isURL generated \<lparr>URL = url2, Alias = alias\<rparr> w)
           = [ev_SaveURL url2 alias (Inl (Errorf ''storage.postgres.SaveURL'' ErrURLExists))]
       \<and> url_table (world_of
            (save_handler isURL generated \<lparr>URL = url2, Alias = alias\<rparr> w)) = url_table w
       \<and> fst (GetURL (world_of
            (save_handler isURL generated \<lparr>URL = url2, Alias = alias\<rparr> w)) alias) = Inr u"
proof -
  from present obtain row where healthy: "pg_fault w = None"
    and row: "find (\<lambda>row. row_alias row = alias) (url_table w) = Some row"
    by (auto simp: GetURL_Inr_iff)
  from row have dup: "alias \<in> set (map row_alias (url_table w))"
    by (rule find_Some_alias_in_table)
  have ins: "fst (insert_url w url2 alias) = Inl (pq_Error ''23505'')"
    using healthy dup by (simp add: insert_url_def Let_def)
  have sv: "SaveURL w url2 alias =
    (Inl (Errorf ''storage.postgres.SaveURL'' ErrURLExists),
     w\<lparr>url_id_seq := url_id_seq w + 1\<rparr>)"
    using healthy dup by (rule SaveURL_duplicate)
  have still: "fst (GetURL (w\<lparr>url_id_seq := url_id_seq w + 1\<rparr>) alias) = Inr u"
    using present by (simp add: GetURL_ignores_sequence)
  have run: "save_handler isURL generated \<lparr>URL = url2, Alias = alias\<rparr> w =
    ((\<lparr>resp_status = 409, resp_error = ''url already exists'', resp_alias = []\<rparr>,
      [ev_SaveURL url2 alias (Inl (Errorf ''storage.postgres.SaveURL'' ErrURLExists))]),
     w\<lparr>url_id_seq := url_id_seq w + 1\<rparr>)"
    using valid given by (simp add: save_handler_def save_New_def sv)
  show ?thesis
    using ins still by (simp add: sv run run_defs)
qed

theorem duplicate_alias_conflict_witness:
  "fst (GetURL world_saved ''abc'') = Inr ''https://example.com''
   \<and> fst (SaveURL world_saved ''https://other.example'' ''abc'')
       = Inl (Errorf ''storage.postgres.SaveURL'' ErrURLExists)
   \<and> resp_status (response_of (save_handler (\<lambda>s. take 8 s = ''https://'') ''generated''
         \<lparr>URL = ''https://other.example'', Alias = ''abc''\<rparr> world_saved)) = 409
   \<and> fst (GetURL (world_of (save_handler (\<lambda>s. take 8 s = ''https://'') ''generated''
         \<lparr>URL = ''https://other.example'', Alias = ''abc''\<rparr> world_saved)) ''abc'')
       = Inr ''https://example.com''"
proof -
  have h1: "fst (GetURL world_saved ''abc'') = Inr ''https://example.com''"
    by (simp add: eval_defs world_defs)
  have h2: "''https://other.example'' \<noteq> []" by simp
  have h3: "(\<lambda>s. take 8 s = ''https://'') ''https://other.example''" by simp
  have h4: "''abc'' \<noteq> []" by simp
  show ?thesis
    using h1 duplicate_alias_conflict
      [where isURL = "\<lambda>s. take 8 s = ''https://''" and generated = "''generated''",
        OF h1 h2 h3 h4]
    by simp
qed

text \<open>
  Claim C3, evaluated. For an alias that was never saved \<open>GetURL\<close> returns
  \<open>ErrURLNotFound\<close>, and the handler answers with the error body \<^verbatim>\<open>not found\<close>
  through \<^verbatim>\<open>render.JSON\<close>, whose status is 200, not 404.
\<close>

theorem never_saved_lookup_answers_200:
  "fst (GetURL world0 ''never-saved'') = Inl ErrURLNotFound
   \<and> response_of (redirect_handler (GET ''never-saved'') world0)
       = render_JSON (resp_Error ''not found'')
   \<and> status_code (response_of (redirect_handler (GET ''never-saved'') world0)) = 200"
  by (simp add: eval_defs)

text \<open>
  Claim C4, evaluated. The path \<^verbatim>\<open>/app.js\<close> ends in \<^verbatim>\<open>.js\<close>, yet the guard lets it
  through: its last four bytes are \<^verbatim>\<open>p.js\<close>. The handler reads the cache and the
  store for the alias \<^verbatim>\<open>app.js\<close> and redirects to what is saved under it.
\<close>

theorem js_path_is_looked_up:
  "static_ext (URL_Path (GET ''app.js'')) = False
   \<and> trace_of (redirect_handler (GET ''app.js'') world_js)
       = [ev_cache_Get ''app.js'' (Inl redis_Nil),
          ev_GetURL ''app.js'' (Inr ''https://example.com''),
          log_Info ''got url from storage'' [(''url'', ''https://example.com'')],
          ev_cache_Set ''app.js'' ''https://example.com'' (5 * Minute) None]
   \<and> response_of (redirect_handler (GET ''app.js'') world_js)
       = http_Redirect ''https://example.com'' StatusFound
   \<and> status_code (response_of (redirect_handler (GET ''app.js'') world_js)) = 302"
  by (simp add: eval_defs world_js_def)

text \<open>
  Claim C9. A save request whose URL is missing or is not a valid URL is answered 400
  with \<^verbatim>\<open>field URL is a required field\<close> or \<^verbatim>\<open>field URL is not a valid URL\<close>; the
  handler calls neither the store nor the cache, and the world is unchanged.
\<close>

theorem save_rejects_bad_url:
  assumes "URL req = [] \<or> \<not> isURL (URL req)"
  shows "resp_status (response_of (save_New isURL generated urlSaver urlCache req w)) = 400
       \<and> resp_error (response_of (save_New isURL generated urlSaver urlCache req w))
           = (if URL req = [] then ''field URL is a required field''
              else ''field URL is not a valid URL'')
       \<and> trace_of (save_New isURL generated urlSaver urlCache req w) = []
       \<and> world_of (save_New isURL generated urlSaver urlCache req w) = w"
  using assms by (auto simp: save_New_def run_defs)

theorem save_rejects_bad_url_witness:
  "(URL \<lparr>URL = [], Alias = ''some_alias''\<rparr> = []
      \<or> \<not> (\<lambda>s. take 8 s = ''https://'') (URL \<lparr>URL = [], Alias = ''some_alias''\<rparr>))
   \<and> resp_status (response_of (save_handler (\<lambda>s. take 8 s = ''https://'') ''generated''
         \<lparr>URL = [], Alias = ''some_alias''\<rparr> world0)) = 400
   \<and> resp_error (response_of (save_handler (\<lambda>s. take 8 s = ''https://'') ''generated''
         \<lparr>URL = [], Alias = ''some_alias''\<rparr> world0)) = ''field URL is a required field''
   \<and> resp_error (response_of (save_handler (\<lambda>s. take 8 s = ''https://'') ''generated''
         \<lparr>URL = ''some invalid URL'', Alias = ''some_alias''\<rparr> world0))
       = ''field URL is not a valid URL''
   \<and> world_of (save_handler (\<lambda>s. take 8 s = ''https://'') ''generated''
         \<lparr>URL = ''some invalid URL'', Alias = ''some_alias''\<rparr> world0) = world0"
proof -
  let ?isURL = "\<lambda>s::string. take 8 s = ''https://''"
  have h1: "URL \<lparr>URL = [], Alias = ''some_alias''\<rparr> = []
      \<or> \<not> ?isURL (URL \<lparr>URL = [], Alias = ''some_alias''\<rparr>)" by simp
  have h2: "URL \<lparr>URL = ''some invalid URL'', Alias = ''some_alias''\<rparr> = []
      \<or> \<not> ?isURL (URL \<lparr>URL = ''some invalid URL'', Alias = ''some_alias''\<rparr>)" by simp
  show ?thesis
    using h1
      save_rejects_bad_url [where isURL = ?isURL and urlSaver = SaveURL and urlCache = Cache, OF h1]
      save_rejects_bad_url [where isURL = ?isURL and urlSaver = SaveURL and urlCache = Cache, OF h2]
    by (simp add: save_handler_def)
qed

end
